theory Spec2Isabelle
  imports Main "HOL-Library.AList" "HOL-Library.Multiset"
begin

section \<open>Go library functions used by the parsers\<close>

text \<open>
  Go strings are byte sequences, here \<^typ>\<open>string\<close>. The functions of package
  \<^verbatim>\<open>strings\<close> that the parsers call are modelled after their documentation;
  \<^verbatim>\<open>strings.Split\<close> is only ever called with the one-byte separator \<^verbatim>\<open>","\<close>.
\<close>

definition HasPrefix :: "string \<Rightarrow> string \<Rightarrow> bool" where
  "HasPrefix s p = (take (length p) s = p)"

definition HasSuffix :: "string \<Rightarrow> string \<Rightarrow> bool" where
  "HasSuffix s p = (length p \<le> length s \<and> drop (length s - length p) s = p)"

definition TrimPrefix :: "string \<Rightarrow> string \<Rightarrow> string" where
  "TrimPrefix s p = (if HasPrefix s p then drop (length p) s else s)"

definition TrimSuffix :: "string \<Rightarrow> string \<Rightarrow> string" where
  "TrimSuffix s p = (if HasSuffix s p then take (length s - length p) s else s)"

fun Split :: "string \<Rightarrow> char \<Rightarrow> string list" where
  "Split [] sep = [[]]"
| "Split (c # cs) sep =
     (if c = sep then [] # Split cs sep
      else (case Split cs sep of [] \<Rightarrow> [[c]] | w # ws \<Rightarrow> (c # w) # ws))"

fun Join :: "string list \<Rightarrow> string \<Rightarrow> string" where
  "Join [] sep = []"
| "Join [x] sep = x"
| "Join (x # y # ys) sep = x @ sep @ Join (y # ys) sep"

text \<open>
  Go's \<^verbatim>\<open>error\<close> values. \<^verbatim>\<open>strconv.Atoi\<close> fails with a \<^verbatim>\<open>*NumError\<close> (function,
  input, cause); the parsers build their own errors with \<^verbatim>\<open>fmt.Errorf\<close>, kept here
  as the format string with its arguments.
\<close>

datatype errkind = ErrSyntax | ErrRange

datatype arg = ArgInt int | ArgStr string

datatype error = NumError string string errkind | Errorf string "arg list"

text \<open>
  Go's \<^verbatim>\<open>int\<close> is a 64-bit two's complement integer on the usual platforms. It is
  modelled as \<^typ>\<open>int\<close>, with the wrap-around of \<^verbatim>\<open>*\<close> and \<^verbatim>\<open>-\<close> written out.
\<close>

definition wrap64 :: "int \<Rightarrow> int" where
  "wrap64 x = (x + 2 ^ 63) mod 2 ^ 64 - 2 ^ 63"

definition digitVal :: "char \<Rightarrow> int option" where
  "digitVal c = (let n = (of_char c :: int) in if 48 \<le> n \<and> n \<le> 57 then Some (n - 48) else None)"

text \<open>
  The digit scan of \<^verbatim>\<open>strconv.ParseUint(s, 10, 64)\<close>: a byte that is no digit is a
  syntax error, a value beyond \<open>2\<^sup>6\<^sup>4 - 1\<close> a range error, whichever comes first.
\<close>

fun scanDigits :: "int \<Rightarrow> string \<Rightarrow> errkind + int" where
  "scanDigits n [] = Inr n"
| "scanDigits n (c # cs) =
     (case digitVal c of
        None \<Rightarrow> Inl ErrSyntax
      | Some d \<Rightarrow> if n * 10 + d > 2 ^ 64 - 1 then Inl ErrRange else scanDigits (n * 10 + d) cs)"

definition Atoi :: "string \<Rightarrow> error + int" where
  "Atoi s =
     (let neg = (take 1 s = ''-'');
          ds = (if take 1 s = ''-'' \<or> take 1 s = ''+'' then drop 1 s else s)
      in if ds = [] then Inl (NumError ''Atoi'' s ErrSyntax)
         else (case scanDigits 0 ds of
                 Inl k \<Rightarrow> Inl (NumError ''Atoi'' s k)
               | Inr un \<Rightarrow>
                   if \<not> neg \<and> un \<ge> 2 ^ 63 then Inl (NumError ''Atoi'' s ErrRange)
                   else if neg \<and> un > 2 ^ 63 then Inl (NumError ''Atoi'' s ErrRange)
                   else Inr (if neg then - un else un)))"

section \<open>The request and the query\<close>

text \<open>
  \<^verbatim>\<open>r.URL.Query()\<close> is a \<^verbatim>\<open>url.Values\<close>, a Go map from parameter names to the list of
  their values. It is an association list; the order of the list is the order in which a
  \<^verbatim>\<open>range\<close> over the map yields the entries in this run (Go leaves it unspecified), and
  a Go map has pairwise distinct keys. \<^verbatim>\<open>Values.Get\<close> returns the first value of a key,
  and the empty string when the key is missing or has no value.
\<close>

type_synonym Values = "(string \<times> string list) list"

definition Get :: "Values \<Rightarrow> string \<Rightarrow> string" where
  "Get v key = (case map_of v key of None \<Rightarrow> [] | Some vs \<Rightarrow> (case vs of [] \<Rightarrow> [] | x # _ \<Rightarrow> x))"

text \<open>
  \<^verbatim>\<open>*orm.Query\<close> belongs to go-pg and is opaque to the parsers: what they do to it is a
  sequence of method calls, which the model records in call order. \<^verbatim>\<open>Where\<close> receives
  either the sanitized value itself or \<^verbatim>\<open>pg.In(values)\<close>.
\<close>

datatype 'v param = Value 'v | In "'v list"

datatype 'v call = Offset int | Limit int | Order string | Where string "'v param"

type_synonym 'v Query = "'v call list"

text \<open>
  A \<^verbatim>\<open>QueryOption\<close> is a Go function value and may be \<^verbatim>\<open>nil\<close> (\<open>None\<close>). Calling a
  nil function panics; the query is shared and mutated in place, so the panic leaves it as
  it was at that moment.
\<close>

datatype panic = NilFuncCall

type_synonym 'v result = "(panic \<times> 'v Query) + 'v Query"

type_synonym 'v QueryOption = "('v Query \<Rightarrow> 'v result) option"

definition call_option :: "'v QueryOption \<Rightarrow> 'v Query \<Rightarrow> 'v result" where
  "call_option opt query = (case opt of None \<Rightarrow> Inl (NilFuncCall, query) | Some f \<Rightarrow> f query)"

record config =
  MaxPageSize :: int
  MinPageSize :: int

text \<open>The values of the \<^verbatim>\<open>envDefault\<close> tags of \<^verbatim>\<open>config\<close>.\<close>

definition defaultConfig :: config where
  "defaultConfig = \<lparr>MaxPageSize = 100, MinPageSize = 1\<rparr>"

section \<open>PaginationFromRequest\<close>

text \<open>The package-level \<^verbatim>\<open>cfg\<close> is passed as the first argument.\<close>

definition PaginationFromRequest :: "config \<Rightarrow> Values \<Rightarrow> 'v QueryOption \<times> error option" where
  "PaginationFromRequest cfg r =
     (let pageStr = Get r ''page[number]'';
          sizeStr = Get r ''page[size]''
      in if pageStr = [] \<or> sizeStr = [] then (Some (\<lambda>query. Inr query), None)
         else (case Atoi pageStr of
                 Inl err \<Rightarrow> (None, Some err)
               | Inr pageNr \<Rightarrow>
                  (case Atoi sizeStr of
                     Inl err \<Rightarrow> (None, Some err)
                   | Inr pageSize \<Rightarrow>
                       if pageSize < MinPageSize cfg \<or> pageSize > MaxPageSize cfg
                       then (None, Some (Errorf
                          ''invalid pagesize not between min. and max. value, min: %d, max: %d''
                          [ArgInt (MinPageSize cfg), ArgInt (MaxPageSize cfg)]))
                       else (Some (\<lambda>query.
                          let query1 = (if pageNr = 0 then query @ [Offset 0]
                                        else query @ [Offset (wrap64 (wrap64 (pageSize * pageNr) - 1))])
                          in Inr (query1 @ [Limit pageSize])), None))))"

section \<open>ColumnMapper and ValueSanitizer\<close>

text \<open>
  A \<^verbatim>\<open>ColumnMapper\<close> is its method \<^verbatim>\<open>Map\<close>, a \<^verbatim>\<open>ValueSanitizer\<close> its method
  \<^verbatim>\<open>SanitizeValue\<close>; of the sanitizer's error only \<^verbatim>\<open>err != nil\<close> is ever looked at,
  which is \<open>None\<close> here.
\<close>

type_synonym ColumnMapper = "string \<Rightarrow> string \<times> bool"

type_synonym 'v ValueSanitizer = "string \<Rightarrow> string \<Rightarrow> 'v option"

text \<open>\<^verbatim>\<open>MapMapper.Map\<close>: a missing key of a Go map reads as the zero value and \<^verbatim>\<open>false\<close>.\<close>

definition MapMapper :: "(string \<rightharpoonup> string) \<Rightarrow> ColumnMapper" where
  "MapMapper mapping val = (case mapping val of None \<Rightarrow> ([], False) | Some v \<Rightarrow> (v, True))"

section \<open>SortingFromRequest\<close>

text \<open>The loop over the tokens, with its two accumulators.\<close>

fun sortingLoop :: "ColumnMapper \<Rightarrow> string list \<Rightarrow> string list \<Rightarrow> string list
    \<Rightarrow> string list \<times> string list" where
  "sortingLoop modelMapping [] resultedOrders errSortingWithReason =
     (resultedOrders, errSortingWithReason)"
| "sortingLoop modelMapping (val0 # rest) resultedOrders errSortingWithReason =
     (if val0 = [] then sortingLoop modelMapping rest resultedOrders errSortingWithReason
      else
        let order = (if HasPrefix val0 ''-'' then '' DESC'' else '' ASC'');
            val = TrimPrefix val0 ''-'';
            (key, isValid) = modelMapping val
        in if \<not> isValid
           then sortingLoop modelMapping rest resultedOrders (errSortingWithReason @ [val])
           else sortingLoop modelMapping rest (resultedOrders @ [key @ order]) errSortingWithReason)"

definition sortingFilterOption :: "string list \<Rightarrow> 'v Query \<Rightarrow> 'v result" where
  "sortingFilterOption resultedOrders query =
     Inr (foldl (\<lambda>q val. q @ [Order val]) query resultedOrders)"

definition SortingFromRequest :: "Values \<Rightarrow> ColumnMapper \<Rightarrow> 'v QueryOption \<times> error option" where
  "SortingFromRequest r modelMapping =
     (let sort = Get r ''sort''
      in if sort = [] then (Some (\<lambda>query. Inr query), None)
         else
           let sorting = Split sort (CHR '','');
               (resultedOrders, errSortingWithReason) = sortingLoop modelMapping sorting [] []
           in if length errSortingWithReason \<noteq> 0
              then (Some (sortingFilterOption resultedOrders),
                    Some (Errorf ''at least one sorting parameter is not valid: %q''
                            [ArgStr (Join errSortingWithReason '','')]))
              else (Some (sortingFilterOption resultedOrders), None))"

section \<open>FilterFromRequest\<close>

definition getFilterKey :: "string \<Rightarrow> ColumnMapper \<Rightarrow> string \<times> bool" where
  "getFilterKey queryName modelMapping =
     (let field = TrimSuffix (TrimPrefix queryName ''filter['') '']'';
          (mapped, isValid) = modelMapping field
      in if \<not> isValid then (field, False) else (mapped, True))"

text \<open>
  \<^verbatim>\<open>getFilterValues\<close>: the inner loop over the comma-separated pieces of one value and
  the outer loop over the values of the parameter; the first piece that the sanitizer rejects
  ends both (\<open>None\<close>, then \<^verbatim>\<open>nil, false\<close>).
\<close>

fun sanitizeSeparated :: "'v ValueSanitizer \<Rightarrow> string \<Rightarrow> string list \<Rightarrow> 'v list \<Rightarrow> 'v list option" where
  "sanitizeSeparated sanitizer fieldName [] filterValues = Some filterValues"
| "sanitizeSeparated sanitizer fieldName (separatedValue # rest) filterValues =
     (case sanitizer fieldName separatedValue of
        None \<Rightarrow> None
      | Some sanitized \<Rightarrow> sanitizeSeparated sanitizer fieldName rest (filterValues @ [sanitized]))"

fun sanitizeValues :: "'v ValueSanitizer \<Rightarrow> string \<Rightarrow> string list \<Rightarrow> 'v list \<Rightarrow> 'v list \<times> bool" where
  "sanitizeValues sanitizer fieldName [] filterValues = (filterValues, True)"
| "sanitizeValues sanitizer fieldName (val # rest) filterValues =
     (case sanitizeSeparated sanitizer fieldName (Split val (CHR '','')) filterValues of
        None \<Rightarrow> ([], False)
      | Some filterValues' \<Rightarrow> sanitizeValues sanitizer fieldName rest filterValues')"

definition getFilterValues :: "string \<Rightarrow> string list \<Rightarrow> 'v ValueSanitizer \<Rightarrow> 'v list \<times> bool" where
  "getFilterValues fieldName queryValues sanitizer = sanitizeValues sanitizer fieldName queryValues []"

text \<open>
  The map \<^verbatim>\<open>filter\<close> is an association list with distinct keys; \<^verbatim>\<open>filter[key] = v\<close>
  is \<^const>\<open>AList.update\<close>. The loop runs over the request's parameters in the order of
  the list.
\<close>

type_synonym 'v ParsedFilter = "(string \<times> 'v list) list"

fun filterLoop :: "ColumnMapper \<Rightarrow> 'v ValueSanitizer \<Rightarrow> Values \<Rightarrow> 'v ParsedFilter \<Rightarrow> string list
    \<Rightarrow> 'v ParsedFilter \<times> string list" where
  "filterLoop modelMapping sanitizer [] filt invalidFilter = (filt, invalidFilter)"
| "filterLoop modelMapping sanitizer ((queryName, queryValues) # rest) filt invalidFilter =
     (if \<not> (HasPrefix queryName ''filter['' \<and> HasSuffix queryName '']'')
      then filterLoop modelMapping sanitizer rest filt invalidFilter
      else
        let (key, isValid) = getFilterKey queryName modelMapping
        in if \<not> isValid
           then filterLoop modelMapping sanitizer rest filt (invalidFilter @ [key])
           else
             let (filterValues, isValid') = getFilterValues key queryValues sanitizer
             in if \<not> isValid'
                then filterLoop modelMapping sanitizer rest filt (invalidFilter @ [key])
                else filterLoop modelMapping sanitizer rest
                       (AList.update key filterValues filt) invalidFilter)"

text \<open>
  One round of the loop in the returned closure. (The closure also prints the equality
  predicate to the standard output, which is no part of the query and is left out.)
\<close>

fun applyFilter :: "'v Query \<Rightarrow> string \<times> 'v list \<Rightarrow> 'v Query" where
  "applyFilter query (name, filterValues) =
     (if length filterValues = 0 then query
      else if length filterValues = 1
           then query @ [Where (name @ '' = ?'') (Value (filterValues ! 0))]
           else query @ [Where (name @ '' IN (?)'') (In filterValues)])"

text \<open>
  The closure ranges over the Go map \<^verbatim>\<open>filter\<close>, in an order that the Go runtime picks
  at each run: \<open>rangeOrder\<close> is that choice, some rearrangement of the entries.
\<close>

definition filterQueryOption :: "('v ParsedFilter \<Rightarrow> 'v ParsedFilter) \<Rightarrow> 'v ParsedFilter
    \<Rightarrow> 'v Query \<Rightarrow> 'v result" where
  "filterQueryOption rangeOrder filt query = Inr (foldl applyFilter query (rangeOrder filt))"

definition FilterFromRequest :: "('v ParsedFilter \<Rightarrow> 'v ParsedFilter) \<Rightarrow> Values \<Rightarrow> ColumnMapper
    \<Rightarrow> 'v ValueSanitizer \<Rightarrow> 'v QueryOption \<times> error option" where
  "FilterFromRequest rangeOrder r modelMapping sanitizer =
     (let (filt, invalidFilter) = filterLoop modelMapping sanitizer r [] []
      in if length invalidFilter \<noteq> 0
         then (Some (filterQueryOption rangeOrder filt),
               Some (Errorf ''at least one filter parameter is not valid: %q''
                       [ArgStr (Join invalidFilter '','')]))
         else (Some (filterQueryOption rangeOrder filt), None))"

section \<open>FilterPagingSortingFromRequest\<close>

definition FilterPagingSortingFromRequest :: "config \<Rightarrow> ('v ParsedFilter \<Rightarrow> 'v ParsedFilter)
    \<Rightarrow> Values \<Rightarrow> ColumnMapper \<Rightarrow> 'v ValueSanitizer \<Rightarrow> 'v QueryOption \<times> error option" where
  "FilterPagingSortingFromRequest cfg rangeOrder r modelMapping sanitizer =
     (let (sortingOption, err) = SortingFromRequest r modelMapping
      in if err \<noteq> None \<and> sortingOption \<noteq> None then (None, err)
         else
           let (paginationOption, err) = PaginationFromRequest cfg r
           in if err \<noteq> None \<and> paginationOption \<noteq> None then (None, err)
              else
                let (filterOption, err) = FilterFromRequest rangeOrder r modelMapping sanitizer
                in if err \<noteq> None \<and> filterOption \<noteq> None then (None, err)
                   else (Some (\<lambda>query.
                      case call_option sortingOption query of
                        Inl p \<Rightarrow> Inl p
                      | Inr q \<Rightarrow>
                         (case call_option filterOption q of
                            Inl p \<Rightarrow> Inl p
                          | Inr q' \<Rightarrow> call_option paginationOption q')), None))"

section \<open>The results of the parsers, described parameter by parameter\<close>

text \<open>
  These definitions are no part of the code: they say, in the terms of the specification,
  what each token and each parameter contributes, and the theorems below compare the loops
  of the code with them.

  Sorting: the tokens of \<^verbatim>\<open>sort\<close> are its non-empty comma-separated pieces; a token is
  mapped without its leading \<^verbatim>\<open>-\<close>; its order clause is the mapped column name followed by
  the direction.
\<close>

definition sortTokens :: "Values \<Rightarrow> string list" where
  "sortTokens r = filter (\<lambda>token. token \<noteq> []) (Split (Get r ''sort'') (CHR '',''))"

definition tokenName :: "string \<Rightarrow> string" where
  "tokenName token = TrimPrefix token ''-''"

definition tokenMapped :: "ColumnMapper \<Rightarrow> string \<Rightarrow> bool" where
  "tokenMapped modelMapping token = snd (modelMapping (tokenName token))"

definition orderClause :: "ColumnMapper \<Rightarrow> string \<Rightarrow> string" where
  "orderClause modelMapping token =
     fst (modelMapping (tokenName token)) @ (if HasPrefix token ''-'' then '' DESC'' else '' ASC'')"

text \<open>
  Filtering: a parameter named \<^verbatim>\<open>filter[<field>]\<close> is unmapped when the mapper rejects
  \<^verbatim>\<open><field>\<close>, unsanitizable when the sanitizer rejects any comma-separated piece of any of
  its values for the mapped column, and valid otherwise, with the sanitized values in their
  order.
\<close>

definition isFilterParam :: "string \<Rightarrow> bool" where
  "isFilterParam queryName = (HasPrefix queryName ''filter['' \<and> HasSuffix queryName '']'')"

definition filterField :: "string \<Rightarrow> string" where
  "filterField queryName = TrimSuffix (TrimPrefix queryName ''filter['') '']''"

datatype 'v verdict = NoFilter | Unmapped string | Unsanitizable string | Valid string "'v list"

definition classify :: "ColumnMapper \<Rightarrow> 'v ValueSanitizer \<Rightarrow> string \<times> string list \<Rightarrow> 'v verdict" where
  "classify modelMapping sanitizer p =
     (if \<not> isFilterParam (fst p) then NoFilter
      else if \<not> snd (modelMapping (filterField (fst p))) then Unmapped (filterField (fst p))
      else
        let column = fst (modelMapping (filterField (fst p)))
        in case those (map (sanitizer column) (concat (map (\<lambda>v. Split v (CHR '','')) (snd p)))) of
             None \<Rightarrow> Unsanitizable column
           | Some values \<Rightarrow> Valid column values)"

text \<open>
  The name that the code leaves in the invalid-list for a discarded parameter (the field of
  an unmapped parameter, the mapped column of an unsanitizable one), and the entry that a
  valid parameter contributes to the parsed filter.
\<close>

fun invalidName :: "'v verdict \<Rightarrow> string list" where
  "invalidName (Unmapped field) = [field]"
| "invalidName (Unsanitizable column) = [column]"
| "invalidName _ = []"

fun validEntry :: "'v verdict \<Rightarrow> (string \<times> 'v list) list" where
  "validEntry (Valid column values) = [(column, values)]"
| "validEntry _ = []"

definition invalidNames :: "ColumnMapper \<Rightarrow> 'v ValueSanitizer \<Rightarrow> Values \<Rightarrow> string list" where
  "invalidNames modelMapping sanitizer r = concat (map (\<lambda>p. invalidName (classify modelMapping sanitizer p)) r)"

definition validEntries :: "ColumnMapper \<Rightarrow> 'v ValueSanitizer \<Rightarrow> Values \<Rightarrow> 'v ParsedFilter" where
  "validEntries modelMapping sanitizer r = concat (map (\<lambda>p. validEntry (classify modelMapping sanitizer p)) r)"

text \<open>
  The predicates of one key of the parsed filter: none without values, an equality for one
  value, one membership predicate over all values for more.
\<close>

fun keyPredicates :: "string \<times> 'v list \<Rightarrow> 'v call list" where
  "keyPredicates (name, []) = []"
| "keyPredicates (name, [v]) = [Where (name @ '' = ?'') (Value v)]"
| "keyPredicates (name, v # w # vs) = [Where (name @ '' IN (?)'') (In (v # w # vs))]"


text \<open>The three kinds of calls that the parsers make on a query.\<close>

fun isOrder :: "'v call \<Rightarrow> bool" where
  "isOrder (Order _) = True"
| "isOrder _ = False"

fun isWhere :: "'v call \<Rightarrow> bool" where
  "isWhere (Where _ _) = True"
| "isWhere _ = False"

fun isPaging :: "'v call \<Rightarrow> bool" where
  "isPaging (Offset _) = True"
| "isPaging (Limit _) = True"
| "isPaging _ = False"

text \<open>
  The mapper and the sanitizers of the specification's examples, and a mapper with two field
  names for one column.
\<close>

definition exampleMapper :: ColumnMapper where
  "exampleMapper = MapMapper (map_of
     [(''name'', ''col_name''), (''age'', ''col_age''), (''color'', ''col_color'')])"


definition identitySanitizer :: "string ValueSanitizer" where
  "identitySanitizer fieldName val = Some val"

definition rejectingSanitizer :: "string ValueSanitizer" where
  "rejectingSanitizer fieldName val = None"

section \<open>Properties of the Go library model\<close>

lemma wrap64_id: "- (2 ^ 63) \<le> x \<Longrightarrow> x < 2 ^ 63 \<Longrightarrow> wrap64 x = x"
  by (simp add: wrap64_def)

lemma wrap64_minus_one: "wrap64 (wrap64 a - 1) = wrap64 (a - 1)"
proof -
  have "(wrap64 a - 1 + 2 ^ 63) mod 2 ^ 64 = ((a + 2 ^ 63) mod 2 ^ 64 - 1) mod 2 ^ 64"
    by (simp add: wrap64_def)
  also have "\<dots> = (a + 2 ^ 63 - 1) mod 2 ^ 64"
    by (rule mod_diff_left_eq)
  finally show ?thesis
    by (simp add: wrap64_def algebra_simps)
qed

lemma Atoi_Nil: "Atoi [] = Inl (NumError ''Atoi'' [] ErrSyntax)"
  by (simp add: Atoi_def)

lemma Atoi_Inr_nonempty: "Atoi s = Inr n \<Longrightarrow> s \<noteq> []"
  by (auto simp: Atoi_Nil)

lemma Atoi_Inl: "Atoi s = Inl e \<Longrightarrow> \<exists>k. e = NumError ''Atoi'' s k"
  by (auto simp: Atoi_def Let_def split: if_splits sum.splits)

lemma Get_absent: "map_of r key = None \<Longrightarrow> Get r key = []"
  by (simp add: Get_def)

section \<open>Properties of PaginationFromRequest\<close>

lemma pagination_offset_limit_aux:
  assumes "Atoi (Get r ''page[number]'') = Inr pageNr"
    and "Atoi (Get r ''page[size]'') = Inr pageSize"
    and "MinPageSize cfg \<le> pageSize" and "pageSize \<le> MaxPageSize cfg"
  shows "\<exists>f. PaginationFromRequest cfg r = (Some f, None) \<and>
           (\<forall>q. f q = Inr (q @ [Offset (if pageNr = 0 then 0 else wrap64 (pageSize * pageNr - 1)),
                                 Limit pageSize]))"
proof -
  from assms(1,2) have ne: "Get r ''page[number]'' \<noteq> []" "Get r ''page[size]'' \<noteq> []"
    by (auto dest: Atoi_Inr_nonempty)
  show ?thesis
    using assms ne
    by (simp add: PaginationFromRequest_def Let_def wrap64_minus_one wrap64_id)
qed

text \<open>
  Claim C3, as the code has it. When \<^verbatim>\<open>page[number]\<close> and \<^verbatim>\<open>page[size]\<close> parse as the
  integers \<open>pageNr\<close> and \<open>pageSize\<close> and \<open>MinPageSize \<le> pageSize \<le> MaxPageSize\<close>, the
  returned modifier calls \<^verbatim>\<open>Offset\<close> and then \<^verbatim>\<open>Limit(pageSize)\<close>. The offset is 0 for
  page number 0, and otherwise \<open>pageSize * pageNr - 1\<close> in Go's 64-bit \<^verbatim>\<open>int\<close>, which is
  the exact value of \<open>pageSize * pageNr - 1\<close> whenever that lies between \<open>-2\<^sup>6\<^sup>3\<close> and
  \<open>2\<^sup>6\<^sup>3 - 1\<close>.
\<close>

theorem pagination_offset_limit:
  assumes "Atoi (Get r ''page[number]'') = Inr pageNr"
    and "Atoi (Get r ''page[size]'') = Inr pageSize"
    and "MinPageSize cfg \<le> pageSize" and "pageSize \<le> MaxPageSize cfg"
  shows "\<exists>f. PaginationFromRequest cfg r = (Some f, None) \<and>
           (\<forall>q. f q = Inr (q @ [Offset (if pageNr = 0 then 0 else wrap64 (pageSize * pageNr - 1)),
                                 Limit pageSize])) \<and>
           (- (2 ^ 63) \<le> pageSize * pageNr - 1 \<and> pageSize * pageNr - 1 < 2 ^ 63
              \<longrightarrow> wrap64 (pageSize * pageNr - 1) = pageSize * pageNr - 1)"
proof -
  from assms(1,2) have ne: "Get r ''page[number]'' \<noteq> []" "Get r ''page[size]'' \<noteq> []"
    by (auto dest: Atoi_Inr_nonempty)
  show ?thesis
    using assms ne
    by (simp add: PaginationFromRequest_def Let_def wrap64_minus_one wrap64_id)
qed

text \<open>The example of the claim: size 10 and number 2 give offset 19 and limit 10.\<close>

theorem pagination_offset_limit_witness:
  "\<exists>f. PaginationFromRequest defaultConfig [(''page[number]'', [''2'']), (''page[size]'', [''10''])]
          = (Some f, None) \<and> (\<forall>q :: string Query. f q = Inr (q @ [Offset 19, Limit 10]))"
  using pagination_offset_limit [of "[(''page[number]'', [''2'']), (''page[size]'', [''10''])]" 2 10 defaultConfig]
  by (simp add: Get_def Atoi_def digitVal_def defaultConfig_def wrap64_def)

text \<open>
  Beyond that range the product wraps around: page number \<open>2\<^sup>6\<^sup>2\<close> with size 4 is a valid
  request, and its offset is \<open>-1\<close>, not \<open>4 * 2\<^sup>6\<^sup>2 - 1\<close>.
\<close>

theorem pagination_offset_counterexample:
  "Atoi ''4611686018427387904'' = Inr 4611686018427387904 \<and> Atoi ''4'' = Inr 4 \<and>
   MinPageSize defaultConfig \<le> 4 \<and> 4 \<le> MaxPageSize defaultConfig \<and>
   call_option (fst (PaginationFromRequest defaultConfig
      [(''page[number]'', [''4611686018427387904'']), (''page[size]'', [''4''])])) ([] :: string Query)
     = Inr [Offset (- 1), Limit 4] \<and>
   (4 :: int) * 4611686018427387904 - 1 \<noteq> - 1"
  by (simp add: PaginationFromRequest_def Get_def Atoi_def digitVal_def defaultConfig_def
      call_option_def wrap64_def)


text \<open>
  Claim C4, as the code has it. \<^verbatim>\<open>PaginationFromRequest\<close> returns the no-op modifier and no
  error when \<^verbatim>\<open>page[number]\<close> or \<^verbatim>\<open>page[size]\<close> is absent or has the empty string as its
  (first) value. When both are non-empty, it returns no modifier and the very error that
  \<^verbatim>\<open>strconv.Atoi\<close> returns for the page number if that is no valid integer, and otherwise
  the one that it returns for the page size if that is no valid integer. When both parse and
  the size is outside \<open>[MinPageSize, MaxPageSize]\<close>, it returns no modifier and the bounds
  error whose arguments are the configured minimum and maximum.
\<close>

theorem pagination_errors:
  "(map_of r ''page[number]'' = None \<or> map_of r ''page[size]'' = None \<or>
      Get r ''page[number]'' = [] \<or> Get r ''page[size]'' = []
      \<longrightarrow> PaginationFromRequest cfg r = (Some (\<lambda>query. Inr query), None)) \<and>
   (\<forall>err. Get r ''page[number]'' \<noteq> [] \<and> Get r ''page[size]'' \<noteq> [] \<and>
      Atoi (Get r ''page[number]'') = Inl err
      \<longrightarrow> PaginationFromRequest cfg r = (None, Some err)) \<and>
   (\<forall>pageNr err. Get r ''page[size]'' \<noteq> [] \<and>
      Atoi (Get r ''page[number]'') = Inr pageNr \<and> Atoi (Get r ''page[size]'') = Inl err
      \<longrightarrow> PaginationFromRequest cfg r = (None, Some err)) \<and>
   (\<forall>pageNr pageSize.
      Atoi (Get r ''page[number]'') = Inr pageNr \<and> Atoi (Get r ''page[size]'') = Inr pageSize \<and>
      (pageSize < MinPageSize cfg \<or> MaxPageSize cfg < pageSize)
      \<longrightarrow> PaginationFromRequest cfg r =
            (None, Some (Errorf ''invalid pagesize not between min. and max. value, min: %d, max: %d''
                           [ArgInt (MinPageSize cfg), ArgInt (MaxPageSize cfg)])))"
proof (intro conjI impI allI)
  assume "map_of r ''page[number]'' = None \<or> map_of r ''page[size]'' = None \<or>
      Get r ''page[number]'' = [] \<or> Get r ''page[size]'' = []"
  then have "Get r ''page[number]'' = [] \<or> Get r ''page[size]'' = []"
    by (auto dest: Get_absent)
  then show "PaginationFromRequest cfg r = (Some (\<lambda>query. Inr query), None)"
    by (auto simp: PaginationFromRequest_def)
next
  fix err
  assume "Get r ''page[number]'' \<noteq> [] \<and> Get r ''page[size]'' \<noteq> [] \<and>
      Atoi (Get r ''page[number]'') = Inl err"
  then show "PaginationFromRequest cfg r = (None, Some err)"
    by (simp add: PaginationFromRequest_def)
next
  fix pageNr err
  assume a: "Get r ''page[size]'' \<noteq> [] \<and>
      Atoi (Get r ''page[number]'') = Inr pageNr \<and> Atoi (Get r ''page[size]'') = Inl err"
  then have "Get r ''page[number]'' \<noteq> []"
    by (auto dest: Atoi_Inr_nonempty)
  with a show "PaginationFromRequest cfg r = (None, Some err)"
    by (simp add: PaginationFromRequest_def)
next
  fix pageNr pageSize
  assume a: "Atoi (Get r ''page[number]'') = Inr pageNr \<and>
      Atoi (Get r ''page[size]'') = Inr pageSize \<and>
      (pageSize < MinPageSize cfg \<or> MaxPageSize cfg < pageSize)"
  then have "Get r ''page[number]'' \<noteq> []" "Get r ''page[size]'' \<noteq> []"
    by (auto dest: Atoi_Inr_nonempty)
  with a show "PaginationFromRequest cfg r =
      (None, Some (Errorf ''invalid pagesize not between min. and max. value, min: %d, max: %d''
                     [ArgInt (MinPageSize cfg), ArgInt (MaxPageSize cfg)]))"
    by (auto simp: PaginationFromRequest_def)
qed

text \<open>
  One request for each case, under the default configuration; when neither string is an
  integer, the error is that of the page number.
\<close>

theorem pagination_errors_witness:
  "(PaginationFromRequest defaultConfig [(''page[size]'', [''10''])] :: string QueryOption \<times> error option)
     = (Some (\<lambda>query. Inr query), None) \<and>
   (PaginationFromRequest defaultConfig [(''page[number]'', [''x1'']), (''page[size]'', [''abc''])]
      :: string QueryOption \<times> error option) = (None, Some (NumError ''Atoi'' ''x1'' ErrSyntax)) \<and>
   (PaginationFromRequest defaultConfig [(''page[number]'', [''1'']), (''page[size]'', [''abc''])]
      :: string QueryOption \<times> error option) = (None, Some (NumError ''Atoi'' ''abc'' ErrSyntax)) \<and>
   (PaginationFromRequest defaultConfig [(''page[number]'', [''1'']), (''page[size]'', [''101''])]
      :: string QueryOption \<times> error option)
     = (None, Some (Errorf ''invalid pagesize not between min. and max. value, min: %d, max: %d''
                      [ArgInt 1, ArgInt 100]))"
proof -
  let ?r1 = "[(''page[size]'', [''10''])]"
  let ?r2 = "[(''page[number]'', [''x1'']), (''page[size]'', [''abc''])]"
  let ?r3 = "[(''page[number]'', [''1'']), (''page[size]'', [''abc''])]"
  let ?r4 = "[(''page[number]'', [''1'']), (''page[size]'', [''101''])]"
  have h1: "map_of ?r1 ''page[number]'' = None \<or> map_of ?r1 ''page[size]'' = None \<or>
      Get ?r1 ''page[number]'' = [] \<or> Get ?r1 ''page[size]'' = []"
    by simp
  have h2: "Get ?r2 ''page[number]'' \<noteq> [] \<and> Get ?r2 ''page[size]'' \<noteq> [] \<and>
      Atoi (Get ?r2 ''page[number]'') = Inl (NumError ''Atoi'' ''x1'' ErrSyntax)"
    by (simp add: Get_def Atoi_def digitVal_def)
  have h3: "Get ?r3 ''page[size]'' \<noteq> [] \<and>
      Atoi (Get ?r3 ''page[number]'') = Inr 1 \<and>
      Atoi (Get ?r3 ''page[size]'') = Inl (NumError ''Atoi'' ''abc'' ErrSyntax)"
    by (simp add: Get_def Atoi_def digitVal_def)
  have h4: "Atoi (Get ?r4 ''page[number]'') = Inr 1 \<and> Atoi (Get ?r4 ''page[size]'') = Inr 101 \<and>
      (101 < MinPageSize defaultConfig \<or> MaxPageSize defaultConfig < 101)"
    by (simp add: Get_def Atoi_def digitVal_def defaultConfig_def)
  from pagination_errors [of ?r1 defaultConfig] h1
  have c1: "(PaginationFromRequest defaultConfig ?r1 :: string QueryOption \<times> error option)
      = (Some (\<lambda>query. Inr query), None)"
    by blast
  from pagination_errors [of ?r2 defaultConfig] h2
  have c2: "(PaginationFromRequest defaultConfig ?r2 :: string QueryOption \<times> error option)
      = (None, Some (NumError ''Atoi'' ''x1'' ErrSyntax))"
    by blast
  from pagination_errors [of ?r3 defaultConfig] h3
  have c3: "(PaginationFromRequest defaultConfig ?r3 :: string QueryOption \<times> error option)
      = (None, Some (NumError ''Atoi'' ''abc'' ErrSyntax))"
    by blast
  from pagination_errors [of ?r4 defaultConfig] h4
  have c4: "(PaginationFromRequest defaultConfig ?r4 :: string QueryOption \<times> error option)
      = (None, Some (Errorf ''invalid pagesize not between min. and max. value, min: %d, max: %d''
                       [ArgInt (MinPageSize defaultConfig), ArgInt (MaxPageSize defaultConfig)]))"
    by blast
  from c1 c2 c3 c4 show ?thesis
    by (simp add: defaultConfig_def)
qed

text \<open>
  A parameter that is present with an empty value counts as absent: with \<^verbatim>\<open>page[number]=\<close>
  and \<^verbatim>\<open>page[size]=10\<close> both parameters are present, the empty string is no valid integer,
  and yet the result is the no-op modifier without an error.
\<close>

theorem pagination_empty_value_counterexample:
  "map_of [(''page[number]'', [[]]), (''page[size]'', [''10''])] ''page[number]'' = Some [[]] \<and>
   map_of [(''page[number]'', [[]]), (''page[size]'', [''10''])] ''page[size]'' = Some [''10''] \<and>
   isl (Atoi []) \<and>
   snd (PaginationFromRequest defaultConfig [(''page[number]'', [[]]), (''page[size]'', [''10''])]
      :: string QueryOption \<times> error option) = None \<and>
   call_option (fst (PaginationFromRequest defaultConfig
      [(''page[number]'', [[]]), (''page[size]'', [''10''])])) [Order ''id ASC'' :: string call]
     = Inr [Order ''id ASC'']"
  by (simp add: PaginationFromRequest_def Get_def Atoi_def call_option_def)

text \<open>
  Claim C5, as the code has it. With \<open>MinPageSize \<ge> 1\<close>, a modifier that
  \<^verbatim>\<open>PaginationFromRequest\<close> returns without error either leaves the query untouched or
  sets a limit \<open>> 0\<close> and an offset; the offset is \<open>\<ge> 0\<close> for every page number \<open>\<ge> 0\<close>
  whose offset does not exceed \<open>2\<^sup>6\<^sup>3 - 1\<close>, and it is negative for a negative page number
  (as long as it does not fall below \<open>-2\<^sup>6\<^sup>3\<close>).
\<close>

theorem pagination_modifier_bounds:
  fixes f :: "'v Query \<Rightarrow> 'v result"
  assumes "PaginationFromRequest cfg r = (Some f, None)" and "1 \<le> MinPageSize cfg"
  shows "(\<forall>q. f q = Inr q) \<or>
         (\<exists>pageNr pageSize off.
            Atoi (Get r ''page[number]'') = Inr pageNr \<and>
            Atoi (Get r ''page[size]'') = Inr pageSize \<and>
            (\<forall>q. f q = Inr (q @ [Offset off, Limit pageSize])) \<and>
            0 < pageSize \<and>
            (0 \<le> pageNr \<and> pageSize * pageNr - 1 < 2 ^ 63 \<longrightarrow> 0 \<le> off) \<and>
            (pageNr < 0 \<and> - (2 ^ 63) \<le> pageSize * pageNr - 1 \<longrightarrow> off < 0))"
proof (cases "Get r ''page[number]'' = [] \<or> Get r ''page[size]'' = []")
  case True
  with assms(1) have "f = (\<lambda>query. Inr query)"
    by (auto simp: PaginationFromRequest_def)
  then show ?thesis by simp
next
  case False
  with assms(1) obtain pageNr pageSize where
    nr: "Atoi (Get r ''page[number]'') = Inr pageNr" and
    sz: "Atoi (Get r ''page[size]'') = Inr pageSize" and
    bounds: "MinPageSize cfg \<le> pageSize" "pageSize \<le> MaxPageSize cfg"
    by (auto simp: PaginationFromRequest_def Let_def split: sum.splits if_splits)
  let ?off = "if pageNr = 0 then 0 else wrap64 (pageSize * pageNr - 1)"
  have "\<exists>g :: 'v Query \<Rightarrow> 'v result. PaginationFromRequest cfg r = (Some g, None) \<and>
      (\<forall>q. g q = Inr (q @ [Offset ?off, Limit pageSize]))"
    by (rule pagination_offset_limit_aux [OF nr sz bounds])
  with assms(1) have f: "\<forall>q. f q = Inr (q @ [Offset ?off, Limit pageSize])"
    by auto
  from bounds assms(2) have pos: "0 < pageSize" by simp
  have nonneg: "0 \<le> ?off" if "0 \<le> pageNr" "pageSize * pageNr - 1 < 2 ^ 63"
  proof (cases "pageNr = 0")
    case True
    then show ?thesis by simp
  next
    case False
    with that pos have "1 \<le> pageNr" by simp
    with pos have "1 * 1 \<le> pageSize * pageNr"
      by (intro mult_mono) auto
    then have "0 \<le> pageSize * pageNr - 1" by simp
    with that False show ?thesis by (simp add: wrap64_id)
  qed
  have neg: "?off < 0" if "pageNr < 0" "- (2 ^ 63) \<le> pageSize * pageNr - 1"
  proof -
    from that pos have "pageSize * pageNr < 0"
      by (simp add: mult_pos_neg)
    with that show ?thesis by (simp add: wrap64_id)
  qed
  from nr sz f pos nonneg neg show ?thesis
    by blast
qed

text \<open>Page 3 of size 10 under the default configuration.\<close>

theorem pagination_modifier_bounds_witness:
  "\<exists>(f :: string Query \<Rightarrow> string result) off.
     PaginationFromRequest defaultConfig [(''page[number]'', [''3'']), (''page[size]'', [''10''])]
       = (Some f, None) \<and>
     (\<forall>q. f q = Inr (q @ [Offset off, Limit 10])) \<and> 0 \<le> off"
proof -
  let ?r = "[(''page[number]'', [''3'']), (''page[size]'', [''10''])]"
  obtain f :: "string Query \<Rightarrow> string result" where
    f: "PaginationFromRequest defaultConfig ?r = (Some f, None)"
    by (simp add: PaginationFromRequest_def Get_def Atoi_def digitVal_def defaultConfig_def)
  have m: "1 \<le> MinPageSize defaultConfig" by (simp add: defaultConfig_def)
  have nr: "Atoi (Get ?r ''page[number]'') = Inr 3" and sz: "Atoi (Get ?r ''page[size]'') = Inr 10"
    by (simp_all add: Get_def Atoi_def digitVal_def)
  have "f [] \<noteq> Inr []"
    using f by (auto simp add: PaginationFromRequest_def Get_def Atoi_def digitVal_def defaultConfig_def)
  with pagination_modifier_bounds [OF f m] nr sz f show ?thesis
    by auto
qed

text \<open>
  The page number is not validated: \<^verbatim>\<open>page[number]=-1\<close> with \<^verbatim>\<open>page[size]=10\<close> is accepted
  without error and sets the offset \<open>-11\<close>.
\<close>

theorem pagination_negative_page_counterexample:
  "snd (PaginationFromRequest defaultConfig [(''page[number]'', [''-1'']), (''page[size]'', [''10''])]
      :: string QueryOption \<times> error option) = None \<and>
   call_option (fst (PaginationFromRequest defaultConfig
      [(''page[number]'', [''-1'']), (''page[size]'', [''10''])])) ([] :: string Query)
     = Inr [Offset (- 11), Limit 10] \<and> \<not> (0 :: int) \<le> - 11"
  by (simp add: PaginationFromRequest_def Get_def Atoi_def digitVal_def defaultConfig_def
      call_option_def wrap64_def)

section \<open>Properties of SortingFromRequest\<close>

lemma foldl_Order: "foldl (\<lambda>q val. q @ [Order val]) query vals = query @ map Order vals"
  by (induction vals arbitrary: query) auto

lemma sortingLoop_eq:
  "sortingLoop m toks orders errs =
     (orders @ map (orderClause m) (filter (\<lambda>t. t \<noteq> [] \<and> tokenMapped m t) toks),
      errs @ map tokenName (filter (\<lambda>t. t \<noteq> [] \<and> \<not> tokenMapped m t) toks))"
proof (induction toks arbitrary: orders errs)
  case Nil
  then show ?case by simp
next
  case (Cons t toks)
  show ?case
  proof (cases "t = []")
    case True
    with Cons show ?thesis by simp
  next
    case False
    obtain key isValid where k: "m (TrimPrefix t ''-'') = (key, isValid)"
      by (cases "m (TrimPrefix t ''-'')")
    with False Cons show ?thesis
      by (simp add: Let_def tokenMapped_def tokenName_def orderClause_def)
  qed
qed

lemma filter_sortTokens:
  "filter (\<lambda>t. t \<noteq> [] \<and> P t) (Split (Get r ''sort'') (CHR '','')) = filter P (sortTokens r)"
  by (simp add: sortTokens_def conj_commute)

lemma sortTokens_empty: "Get r ''sort'' = [] \<Longrightarrow> sortTokens r = []"
  by (simp add: sortTokens_def)

lemma SortingFromRequest_eq:
  "\<exists>f. SortingFromRequest r m =
          (Some f,
           if filter (\<lambda>t. \<not> tokenMapped m t) (sortTokens r) = [] then None
           else Some (Errorf ''at least one sorting parameter is not valid: %q''
                  [ArgStr (Join (map tokenName (filter (\<lambda>t. \<not> tokenMapped m t) (sortTokens r))) '','')])) \<and>
        (\<forall>q. f q = Inr (q @ map Order (map (orderClause m) (filter (tokenMapped m) (sortTokens r)))))"
proof (cases "Get r ''sort'' = []")
  case True
  then show ?thesis
    by (simp add: SortingFromRequest_def sortTokens_empty)
next
  case False
  then show ?thesis
    by (simp add: SortingFromRequest_def Let_def sortingLoop_eq filter_sortTokens
        sortingFilterOption_def foldl_Order)
qed

text \<open>
  Claim C6. When the mapper accepts every non-empty token of \<^verbatim>\<open>sort\<close> (without its leading
  \<^verbatim>\<open>-\<close>), \<^verbatim>\<open>SortingFromRequest\<close> returns no error and a modifier that calls \<^verbatim>\<open>Order\<close> once
  per non-empty token, in the order of the tokens, with the mapped column name followed by
  \<^verbatim>\<open>DESC\<close> for a token with a leading \<^verbatim>\<open>-\<close> and by \<^verbatim>\<open>ASC\<close> otherwise.
\<close>

theorem sorting_all_mapped:
  assumes "\<forall>token \<in> set (sortTokens r). tokenMapped modelMapping token"
  shows "\<exists>f. SortingFromRequest r modelMapping = (Some f, None) \<and>
           (\<forall>q. f q = Inr (q @ map (\<lambda>token. Order (orderClause modelMapping token)) (sortTokens r)))"
proof -
  from assms have "filter (\<lambda>t. \<not> tokenMapped modelMapping t) (sortTokens r) = []"
    and "filter (tokenMapped modelMapping) (sortTokens r) = sortTokens r"
    by (simp_all add: filter_empty_conv)
  with SortingFromRequest_eq [of r modelMapping] show ?thesis
    by (simp add: comp_def)
qed

lemma exampleMapper_simps:
  "exampleMapper ''name'' = (''col_name'', True)"
  "exampleMapper ''age'' = (''col_age'', True)"
  "exampleMapper ''color'' = (''col_color'', True)"
  "exampleMapper ''bogus'' = ([], False)"
  "exampleMapper ''bad'' = ([], False)"
  by (simp_all add: exampleMapper_def MapMapper_def)

lemma sortTokens_example1: "sortTokens [(''sort'', [''-name,age''])] = [''-name'', ''age'']"
  by (simp add: sortTokens_def Get_def)

lemma sortTokens_example2: "sortTokens [(''sort'', [''-name,bogus''])] = [''-name'', ''bogus'']"
  by (simp add: sortTokens_def Get_def)

text \<open>The example of the specification: \<^verbatim>\<open>sort=-name,age\<close>.\<close>

theorem sorting_all_mapped_witness:
  "\<exists>f. SortingFromRequest [(''sort'', [''-name,age''])] exampleMapper = (Some f, None) \<and>
        (\<forall>q :: string Query. f q = Inr (q @ [Order ''col_name DESC'', Order ''col_age ASC'']))"
  using sorting_all_mapped [of "[(''sort'', [''-name,age''])]" exampleMapper]
  by (simp add: sortTokens_example1 tokenMapped_def tokenName_def orderClause_def
      TrimPrefix_def HasPrefix_def exampleMapper_simps)

text \<open>
  Claim C7. When the mapper rejects at least one non-empty token of \<^verbatim>\<open>sort\<close>,
  \<^verbatim>\<open>SortingFromRequest\<close> returns an error whose argument is the comma-joined list of all
  rejected tokens (each without its leading \<^verbatim>\<open>-\<close>, in the order of the tokens), together with
  a modifier that still calls \<^verbatim>\<open>Order\<close> for every accepted token.
\<close>

theorem sorting_some_unmapped:
  assumes "\<exists>token \<in> set (sortTokens r). \<not> tokenMapped modelMapping token"
  shows "\<exists>f. SortingFromRequest r modelMapping =
            (Some f, Some (Errorf ''at least one sorting parameter is not valid: %q''
               [ArgStr (Join (map tokenName
                  (filter (\<lambda>token. \<not> tokenMapped modelMapping token) (sortTokens r))) '','')])) \<and>
           (\<forall>q. f q = Inr (q @ map (\<lambda>token. Order (orderClause modelMapping token))
                                   (filter (tokenMapped modelMapping) (sortTokens r))))"
proof -
  from assms have "filter (\<lambda>t. \<not> tokenMapped modelMapping t) (sortTokens r) \<noteq> []"
    by (auto simp: filter_empty_conv)
  with SortingFromRequest_eq [of r modelMapping] show ?thesis
    by (simp add: comp_def)
qed

text \<open>The example of the specification: \<^verbatim>\<open>sort=-name,bogus\<close>.\<close>

theorem sorting_some_unmapped_witness:
  "\<exists>f. SortingFromRequest [(''sort'', [''-name,bogus''])] exampleMapper =
          (Some f, Some (Errorf ''at least one sorting parameter is not valid: %q'' [ArgStr ''bogus''])) \<and>
        (\<forall>q :: string Query. f q = Inr (q @ [Order ''col_name DESC'']))"
  using sorting_some_unmapped [of "[(''sort'', [''-name,bogus''])]" exampleMapper]
  by (simp add: sortTokens_example2 tokenMapped_def tokenName_def orderClause_def
      TrimPrefix_def HasPrefix_def exampleMapper_simps)

section \<open>Properties of FilterFromRequest\<close>

lemma those_append:
  "those (xs @ ys) =
     (case those xs of None \<Rightarrow> None
      | Some a \<Rightarrow> (case those ys of None \<Rightarrow> None | Some b \<Rightarrow> Some (a @ b)))"
  by (induction xs) (auto split: option.splits)

lemma sanitizeSeparated_eq:
  "sanitizeSeparated s f xs acc =
     (case those (map (s f) xs) of None \<Rightarrow> None | Some vs \<Rightarrow> Some (acc @ vs))"
  by (induction xs arbitrary: acc) (auto split: option.splits)

lemma sanitizeValues_eq:
  "sanitizeValues s f vals acc =
     (case those (map (s f) (concat (map (\<lambda>v. Split v (CHR '','')) vals))) of
        None \<Rightarrow> ([], False)
      | Some vs \<Rightarrow> (acc @ vs, True))"
  by (induction vals arbitrary: acc)
     (auto simp: sanitizeSeparated_eq those_append split: option.splits)

lemma getFilterValues_eq:
  "getFilterValues f vals s =
     (case those (map (s f) (concat (map (\<lambda>v. Split v (CHR '','')) vals))) of
        None \<Rightarrow> ([], False)
      | Some vs \<Rightarrow> (vs, True))"
  by (simp add: getFilterValues_def sanitizeValues_eq split: option.splits)

lemma getFilterKey_eq:
  "getFilterKey queryName m =
     (if snd (m (filterField queryName)) then (fst (m (filterField queryName)), True)
      else (filterField queryName, False))"
  by (simp add: getFilterKey_def filterField_def Let_def split: prod.splits)

lemma filterLoop_eq:
  "filterLoop m s r filt invalid =
     (fold (\<lambda>e. AList.update (fst e) (snd e)) (validEntries m s r) filt, invalid @ invalidNames m s r)"
proof (induction r arbitrary: filt invalid)
  case Nil
  then show ?case by (simp add: validEntries_def invalidNames_def)
next
  case (Cons p r)
  obtain queryName queryValues where p: "p = (queryName, queryValues)"
    by (cases p)
  let ?p = "(queryName, queryValues)"
  have step: "validEntries m s (?p # r) = validEntry (classify m s ?p) @ validEntries m s r"
    "invalidNames m s (?p # r) = invalidName (classify m s ?p) @ invalidNames m s r"
    by (simp_all add: validEntries_def invalidNames_def)
  have "filterLoop m s (?p # r) filt invalid =
     (fold (\<lambda>e. AList.update (fst e) (snd e)) (validEntries m s (?p # r)) filt,
      invalid @ invalidNames m s (?p # r))"
  proof (cases "classify m s ?p")
    case NoFilter
    then have "\<not> (HasPrefix queryName ''filter['' \<and> HasSuffix queryName '']'')"
      by (auto simp: classify_def isFilterParam_def Let_def split: if_splits option.splits)
    with NoFilter show ?thesis
      by (simp add: step Cons.IH)
  next
    case (Unmapped field)
    then have "HasPrefix queryName ''filter['' \<and> HasSuffix queryName '']''"
      and "\<not> snd (m (filterField queryName))" and "field = filterField queryName"
      by (auto simp: classify_def isFilterParam_def Let_def split: if_splits option.splits)
    with Unmapped show ?thesis
      by (simp add: step Cons.IH getFilterKey_eq)
  next
    case (Unsanitizable column)
    then have "HasPrefix queryName ''filter['' \<and> HasSuffix queryName '']''"
      and "snd (m (filterField queryName))" and "column = fst (m (filterField queryName))"
      and "those (map (s column) (concat (map (\<lambda>v. Split v (CHR '','')) queryValues))) = None"
      by (auto simp: classify_def isFilterParam_def Let_def split: if_splits option.splits)
    with Unsanitizable show ?thesis
      by (simp add: step Cons.IH getFilterKey_eq getFilterValues_eq)
  next
    case (Valid column vs)
    then have "HasPrefix queryName ''filter['' \<and> HasSuffix queryName '']''"
      and "snd (m (filterField queryName))" and "column = fst (m (filterField queryName))"
      and "those (map (s column) (concat (map (\<lambda>v. Split v (CHR '','')) queryValues))) = Some vs"
      by (auto simp: classify_def isFilterParam_def Let_def split: if_splits option.splits)
    with Valid show ?thesis
      by (simp add: step Cons.IH getFilterKey_eq getFilterValues_eq)
  qed
  then show ?case by (simp only: p)
qed



lemma applyFilter_eq: "applyFilter query e = query @ keyPredicates e"
  by (cases e rule: keyPredicates.cases) auto

lemma foldl_applyFilter: "foldl applyFilter query es = query @ concat (map keyPredicates es)"
  by (induction es arbitrary: query) (auto simp: applyFilter_eq)


lemma FilterFromRequest_eq:
  "FilterFromRequest rangeOrder r m s =
     (Some (filterQueryOption rangeOrder (fold (\<lambda>e. AList.update (fst e) (snd e)) (validEntries m s r) [])),
      if invalidNames m s r = [] then None
      else Some (Errorf ''at least one filter parameter is not valid: %q''
             [ArgStr (Join (invalidNames m s r) '','')]))"
  by (simp add: FilterFromRequest_def filterLoop_eq)

lemma filterQueryOption_eq:
  "filterQueryOption rangeOrder filt q = Inr (q @ concat (map keyPredicates (rangeOrder filt)))"
  by (simp add: filterQueryOption_def foldl_applyFilter)


lemma keyPredicates_isWhere: "c \<in> set (keyPredicates e) \<Longrightarrow> isWhere c"
  by (cases e rule: keyPredicates.cases) auto












text \<open>
  Claim C9 says that a key with a piece that fails sanitization is discarded and leaves its
  field name in the invalid-list, as an unmapped key does. On the request
  \<^verbatim>\<open>filter[bad]=x&filter[color]=red\<close>, with \<^verbatim>\<open>bad\<close> unmapped, \<^verbatim>\<open>color\<close> mapped to
  \<^verbatim>\<open>col_color\<close> and a sanitizer that rejects the value, the unmapped key is reported by its
  field name, but the unsanitizable one by its column: the error names \<^verbatim>\<open>bad,col_color\<close>.
\<close>

theorem filter_invalid_names_mixed:
  "filterField ''filter[color]'' = ''color'' \<and>
   exampleMapper ''color'' = (''col_color'', True) \<and>
   snd (FilterFromRequest rev [(''filter[bad]'', [''x'']), (''filter[color]'', [''red''])]
          exampleMapper rejectingSanitizer) =
     Some (Errorf ''at least one filter parameter is not valid: %q'' [ArgStr ''bad,col_color'']) \<and>
   ''bad,col_color'' \<noteq> ''bad,color''"
  by (simp add: FilterFromRequest_def filterField_def HasPrefix_def HasSuffix_def getFilterKey_def
      TrimPrefix_def TrimSuffix_def exampleMapper_simps getFilterValues_def rejectingSanitizer_def)

text \<open>
  The example of the specification: \<^verbatim>\<open>filter[color]=red&filter[bad]=x\<close> names \<^verbatim>\<open>bad\<close> in the
  error and still applies \<^verbatim>\<open>col_color = red\<close>.
\<close>

lemma filter_unmapped_example:
  "snd (FilterFromRequest rev [(''filter[color]'', [''red'']), (''filter[bad]'', [''x''])]
          exampleMapper identitySanitizer) =
     Some (Errorf ''at least one filter parameter is not valid: %q'' [ArgStr ''bad'']) \<and>
   call_option (fst (FilterFromRequest rev [(''filter[color]'', [''red'']), (''filter[bad]'', [''x''])]
          exampleMapper identitySanitizer)) [] = Inr [Where ''col_color = ?'' (Value ''red'')]"
  by (simp add: FilterFromRequest_def HasPrefix_def HasSuffix_def getFilterKey_def TrimPrefix_def
      TrimSuffix_def exampleMapper_simps getFilterValues_def identitySanitizer_def
      call_option_def filterQueryOption_def)

section \<open>Properties of FilterPagingSortingFromRequest\<close>

lemma Sorting_calls:
  "\<exists>(f :: 'v Query \<Rightarrow> 'v result) calls.
     fst (SortingFromRequest r m) = Some f \<and> (\<forall>q. f q = Inr (q @ calls)) \<and>
     (\<forall>c \<in> set calls. isOrder c)"
proof -
  let ?calls = "map Order (map (orderClause m) (filter (tokenMapped m) (sortTokens r))) :: 'v call list"
  from SortingFromRequest_eq [of r m] obtain f :: "'v Query \<Rightarrow> 'v result" and e where
    "SortingFromRequest r m = (Some f, e)" "\<forall>q. f q = Inr (q @ ?calls)"
    by blast
  then have "fst (SortingFromRequest r m) = Some f" "\<forall>q. f q = Inr (q @ ?calls)"
    by simp_all
  moreover have "\<forall>c \<in> set ?calls. isOrder c"
    by auto
  ultimately show ?thesis by blast
qed

lemma Filter_calls:
  "\<exists>f calls. fst (FilterFromRequest rangeOrder r m s) = Some f \<and> (\<forall>q. f q = Inr (q @ calls)) \<and>
     (\<forall>c \<in> set calls. isWhere c)"
proof -
  let ?filt = "fold (\<lambda>e. AList.update (fst e) (snd e)) (validEntries m s r) []"
  have "\<forall>c \<in> set (concat (map keyPredicates (rangeOrder ?filt))). isWhere c"
    by (auto dest: keyPredicates_isWhere)
  then show ?thesis
    unfolding FilterFromRequest_eq by (auto simp: filterQueryOption_eq)
qed

lemma Pagination_ok_calls:
  assumes "snd (PaginationFromRequest cfg r :: 'v QueryOption \<times> error option) = None"
  shows "\<exists>(f :: 'v Query \<Rightarrow> 'v result) calls.
     fst (PaginationFromRequest cfg r) = Some f \<and> (\<forall>q. f q = Inr (q @ calls)) \<and>
     (\<forall>c \<in> set calls. isPaging c)"
proof (cases "Get r ''page[number]'' = [] \<or> Get r ''page[size]'' = []")
  case True
  then have "fst (PaginationFromRequest cfg r :: 'v QueryOption \<times> error option) = Some (\<lambda>query. Inr query)"
    by (auto simp: PaginationFromRequest_def)
  then show ?thesis
    by (intro exI [of _ "\<lambda>query. Inr query"] exI [of _ "[]"]) simp
next
  case False
  with assms obtain pageNr pageSize where
    nr: "Atoi (Get r ''page[number]'') = Inr pageNr" and
    sz: "Atoi (Get r ''page[size]'') = Inr pageSize" and
    bounds: "MinPageSize cfg \<le> pageSize" "pageSize \<le> MaxPageSize cfg"
    by (auto simp: PaginationFromRequest_def Let_def split: sum.splits if_splits)
  let ?calls = "[Offset (if pageNr = 0 then 0 else wrap64 (pageSize * pageNr - 1)), Limit pageSize]"
  have "\<exists>g :: 'v Query \<Rightarrow> 'v result. PaginationFromRequest cfg r = (Some g, None) \<and>
      (\<forall>q. g q = Inr (q @ ?calls))"
    by (rule pagination_offset_limit_aux [OF nr sz bounds])
  then obtain g :: "'v Query \<Rightarrow> 'v result" where
    "fst (PaginationFromRequest cfg r) = Some g" "\<forall>q. g q = Inr (q @ ?calls)"
    by auto
  moreover have "\<forall>c \<in> set ?calls. isPaging c" by simp
  ultimately show ?thesis by blast
qed

lemma Pagination_error_nil:
  "snd (PaginationFromRequest cfg r :: 'v QueryOption \<times> error option) = Some e \<Longrightarrow>
   fst (PaginationFromRequest cfg r :: 'v QueryOption \<times> error option) = None"
  by (auto simp: PaginationFromRequest_def Let_def split: sum.splits if_splits)

lemma composer_eq:
  fixes s :: "'v ValueSanitizer"
  shows "FilterPagingSortingFromRequest cfg rangeOrder r m s =
     (if snd (SortingFromRequest r m :: 'v QueryOption \<times> error option) \<noteq> None \<and>
         fst (SortingFromRequest r m :: 'v QueryOption \<times> error option) \<noteq> None
      then (None, snd (SortingFromRequest r m :: 'v QueryOption \<times> error option))
      else if snd (PaginationFromRequest cfg r :: 'v QueryOption \<times> error option) \<noteq> None \<and>
              fst (PaginationFromRequest cfg r :: 'v QueryOption \<times> error option) \<noteq> None
      then (None, snd (PaginationFromRequest cfg r :: 'v QueryOption \<times> error option))
      else if snd (FilterFromRequest rangeOrder r m s) \<noteq> None \<and>
              fst (FilterFromRequest rangeOrder r m s) \<noteq> None
      then (None, snd (FilterFromRequest rangeOrder r m s))
      else (Some (\<lambda>query.
              case call_option (fst (SortingFromRequest r m)) query of
                Inl p \<Rightarrow> Inl p
              | Inr q \<Rightarrow>
                 (case call_option (fst (FilterFromRequest rangeOrder r m s)) q of
                    Inl p \<Rightarrow> Inl p
                  | Inr q' \<Rightarrow> call_option (fst (PaginationFromRequest cfg r)) q')), None))"
proof -
  obtain so se where S: "(SortingFromRequest r m :: 'v QueryOption \<times> error option) = (so, se)"
    by (cases "SortingFromRequest r m :: 'v QueryOption \<times> error option")
  obtain po pe where P: "(PaginationFromRequest cfg r :: 'v QueryOption \<times> error option) = (po, pe)"
    by (cases "PaginationFromRequest cfg r :: 'v QueryOption \<times> error option")
  obtain fo fe where F: "FilterFromRequest rangeOrder r m s = (fo, fe)"
    by (cases "FilterFromRequest rangeOrder r m s")
  show ?thesis
    by (simp add: FilterPagingSortingFromRequest_def S P F cong: sum.case_cong)
qed

text \<open>An error of the sorting parser ends the composition: it is returned alone.\<close>

lemma composer_sorting_error:
  fixes s :: "'v ValueSanitizer"
  assumes "snd (SortingFromRequest r m :: 'v QueryOption \<times> error option) = Some e"
  shows "FilterPagingSortingFromRequest cfg rangeOrder r m s = (None, Some e)"
proof -
  from Sorting_calls [of r m]
  have "fst (SortingFromRequest r m :: 'v QueryOption \<times> error option) \<noteq> None" by auto
  with assms show ?thesis by (simp add: composer_eq)
qed

text \<open>
  Claim C10. When the three parsers return no error, the modifier of
  \<^verbatim>\<open>FilterPagingSortingFromRequest\<close> makes the calls of the sorting modifier first (all of them
  \<^verbatim>\<open>Order\<close>), then those of the filtering modifier (all of them \<^verbatim>\<open>Where\<close>), then those of the
  pagination modifier (\<^verbatim>\<open>Offset\<close> and \<^verbatim>\<open>Limit\<close>).
\<close>

theorem composer_apply_order:
  fixes sanitizer :: "'v ValueSanitizer"
  assumes "snd (SortingFromRequest r modelMapping :: 'v QueryOption \<times> error option) = None"
    and "snd (PaginationFromRequest cfg r :: 'v QueryOption \<times> error option) = None"
    and "snd (FilterFromRequest rangeOrder r modelMapping sanitizer) = None"
  shows "\<exists>f sortCalls filterCalls pageCalls.
           FilterPagingSortingFromRequest cfg rangeOrder r modelMapping sanitizer = (Some f, None) \<and>
           (\<forall>q. call_option (fst (SortingFromRequest r modelMapping)) q = Inr (q @ sortCalls)) \<and>
           (\<forall>q. call_option (fst (FilterFromRequest rangeOrder r modelMapping sanitizer)) q
                  = Inr (q @ filterCalls)) \<and>
           (\<forall>q. call_option (fst (PaginationFromRequest cfg r)) q = Inr (q @ pageCalls)) \<and>
           (\<forall>c \<in> set sortCalls. isOrder c) \<and> (\<forall>c \<in> set filterCalls. isWhere c) \<and>
           (\<forall>c \<in> set pageCalls. isPaging c) \<and>
           (\<forall>q. f q = Inr (q @ sortCalls @ filterCalls @ pageCalls))"
proof -
  from Sorting_calls [of r modelMapping] obtain fs :: "'v Query \<Rightarrow> 'v result" and sortCalls where
    s: "fst (SortingFromRequest r modelMapping) = Some fs" "\<forall>q. fs q = Inr (q @ sortCalls)"
      "\<forall>c \<in> set sortCalls. isOrder c"
    by blast
  from Filter_calls [of rangeOrder r modelMapping sanitizer] obtain ff filterCalls where
    f: "fst (FilterFromRequest rangeOrder r modelMapping sanitizer) = Some ff"
      "\<forall>q. ff q = Inr (q @ filterCalls)" "\<forall>c \<in> set filterCalls. isWhere c"
    by blast
  from Pagination_ok_calls [OF assms(2)] obtain fp :: "'v Query \<Rightarrow> 'v result" and pageCalls where
    p: "fst (PaginationFromRequest cfg r) = Some fp" "\<forall>q. fp q = Inr (q @ pageCalls)"
      "\<forall>c \<in> set pageCalls. isPaging c"
    by blast
  let ?f = "\<lambda>query.
              case call_option (fst (SortingFromRequest r modelMapping)) query of
                Inl p \<Rightarrow> Inl p
              | Inr q \<Rightarrow>
                 (case call_option (fst (FilterFromRequest rangeOrder r modelMapping sanitizer)) q of
                    Inl p \<Rightarrow> Inl p
                  | Inr q' \<Rightarrow> call_option (fst (PaginationFromRequest cfg r)) q')"
  have c: "FilterPagingSortingFromRequest cfg rangeOrder r modelMapping sanitizer = (Some ?f, None)"
    using assms by (simp add: composer_eq)
  have "\<forall>q. ?f q = Inr (q @ sortCalls @ filterCalls @ pageCalls)"
    using s f p by (simp add: call_option_def)
  with c s f p show ?thesis
    by (intro exI [of _ ?f] exI [of _ sortCalls] exI [of _ filterCalls] exI [of _ pageCalls])
       (simp add: call_option_def)
qed

text \<open>
  Claim C2. When sorting and filtering succeed and pagination fails,
  \<^verbatim>\<open>PaginationFromRequest\<close> has returned a nil option with its error, the guard of the composer
  does not fire, and \<^verbatim>\<open>FilterPagingSortingFromRequest\<close> returns a nil error with a modifier
  that panics on every query, calling the nil pagination option.
\<close>

theorem composer_loses_pagination_error:
  fixes sanitizer :: "'v ValueSanitizer"
  assumes "snd (SortingFromRequest r modelMapping :: 'v QueryOption \<times> error option) = None"
    and "snd (PaginationFromRequest cfg r :: 'v QueryOption \<times> error option) = Some e"
    and "snd (FilterFromRequest rangeOrder r modelMapping sanitizer) = None"
  shows "fst (PaginationFromRequest cfg r :: 'v QueryOption \<times> error option) = None \<and>
         (\<exists>f. FilterPagingSortingFromRequest cfg rangeOrder r modelMapping sanitizer = (Some f, None) \<and>
              (\<forall>q. \<exists>q'. f q = Inl (NilFuncCall, q')))"
proof -
  from Sorting_calls [of r modelMapping] obtain fs :: "'v Query \<Rightarrow> 'v result" and sortCalls where
    s: "fst (SortingFromRequest r modelMapping) = Some fs" "\<forall>q. fs q = Inr (q @ sortCalls)"
    by blast
  from Filter_calls [of rangeOrder r modelMapping sanitizer] obtain ff filterCalls where
    f: "fst (FilterFromRequest rangeOrder r modelMapping sanitizer) = Some ff"
      "\<forall>q. ff q = Inr (q @ filterCalls)"
    by blast
  have p: "fst (PaginationFromRequest cfg r :: 'v QueryOption \<times> error option) = None"
    by (rule Pagination_error_nil [OF assms(2)])
  let ?f = "\<lambda>query.
              case call_option (fst (SortingFromRequest r modelMapping)) query of
                Inl p \<Rightarrow> Inl p
              | Inr q \<Rightarrow>
                 (case call_option (fst (FilterFromRequest rangeOrder r modelMapping sanitizer)) q of
                    Inl p \<Rightarrow> Inl p
                  | Inr q' \<Rightarrow> call_option (fst (PaginationFromRequest cfg r)) q')"
  have c: "FilterPagingSortingFromRequest cfg rangeOrder r modelMapping sanitizer = (Some ?f, None)"
    using assms p by (simp add: composer_eq)
  have "\<forall>q. ?f q = Inl (NilFuncCall, q @ sortCalls @ filterCalls)"
    using s f p by (simp add: call_option_def)
  then have "\<forall>q. \<exists>q'. ?f q = Inl (NilFuncCall, q')" by blast
  with c p show ?thesis by blast
qed

text \<open>A request with all three kinds of parameters.\<close>

theorem composer_apply_order_witness:
  "\<exists>f sortCalls filterCalls pageCalls.
     FilterPagingSortingFromRequest defaultConfig rev
       [(''sort'', [''-name'']), (''filter[color]'', [''red,blue'']),
        (''page[number]'', [''1'']), (''page[size]'', [''10''])]
       exampleMapper identitySanitizer = (Some f, None) \<and>
     (\<forall>c \<in> set sortCalls. isOrder c) \<and> (\<forall>c \<in> set filterCalls. isWhere c) \<and>
     (\<forall>c \<in> set pageCalls. isPaging c) \<and>
     (\<forall>q. f q = Inr (q @ sortCalls @ filterCalls @ pageCalls)) \<and>
     f [] = Inr [Order ''col_name DESC'', Where ''col_color IN (?)'' (In [''red'', ''blue'']),
                 Offset 9, Limit 10]"
proof -
  let ?r = "[(''sort'', [''-name'']), (''filter[color]'', [''red,blue'']),
             (''page[number]'', [''1'']), (''page[size]'', [''10''])]"
  have h1: "snd (SortingFromRequest ?r exampleMapper :: string QueryOption \<times> error option) = None"
    by (simp add: SortingFromRequest_def Get_def HasPrefix_def TrimPrefix_def exampleMapper_simps)
  have h2: "snd (PaginationFromRequest defaultConfig ?r :: string QueryOption \<times> error option) = None"
    by (simp add: PaginationFromRequest_def Get_def Atoi_def digitVal_def defaultConfig_def)
  have h3: "snd (FilterFromRequest rev ?r exampleMapper identitySanitizer) = None"
    by (simp add: FilterFromRequest_def HasPrefix_def HasSuffix_def getFilterKey_def TrimPrefix_def
        TrimSuffix_def exampleMapper_simps getFilterValues_def identitySanitizer_def)
  have e: "call_option (fst (FilterPagingSortingFromRequest defaultConfig rev ?r
        exampleMapper identitySanitizer)) [] =
      Inr [Order ''col_name DESC'', Where ''col_color IN (?)'' (In [''red'', ''blue'']),
           Offset 9, Limit 10]"
    by (simp add: FilterPagingSortingFromRequest_def SortingFromRequest_def
        PaginationFromRequest_def FilterFromRequest_def Get_def HasPrefix_def HasSuffix_def
        TrimPrefix_def TrimSuffix_def exampleMapper_simps getFilterKey_def getFilterValues_def
        identitySanitizer_def Atoi_def digitVal_def defaultConfig_def call_option_def
        sortingFilterOption_def filterQueryOption_def wrap64_def)
  from composer_apply_order [OF h1 h2 h3] obtain f sortCalls filterCalls pageCalls where
    c: "FilterPagingSortingFromRequest defaultConfig rev ?r exampleMapper identitySanitizer
          = (Some f, None)"
      "\<forall>c \<in> set sortCalls. isOrder c" "\<forall>c \<in> set filterCalls. isWhere c"
      "\<forall>c \<in> set pageCalls. isPaging c"
      "\<forall>q. f q = Inr (q @ sortCalls @ filterCalls @ pageCalls)"
    by blast
  from c(1) e have "f [] = Inr [Order ''col_name DESC'',
      Where ''col_color IN (?)'' (In [''red'', ''blue'']), Offset 9, Limit 10]"
    by (simp add: call_option_def)
  with c show ?thesis by blast
qed

text \<open>Such a request exists: a page number with a page size that is no integer.\<close>

theorem composer_loses_pagination_error_witness:
  "fst (PaginationFromRequest defaultConfig [(''page[number]'', [''1'']), (''page[size]'', [''abc''])]
         :: string QueryOption \<times> error option) = None \<and>
   snd (PaginationFromRequest defaultConfig [(''page[number]'', [''1'']), (''page[size]'', [''abc''])]
         :: string QueryOption \<times> error option) = Some (NumError ''Atoi'' ''abc'' ErrSyntax) \<and>
   (\<exists>f. FilterPagingSortingFromRequest defaultConfig rev
           [(''page[number]'', [''1'']), (''page[size]'', [''abc''])] exampleMapper identitySanitizer
           = (Some f, None) \<and>
        (\<forall>q. \<exists>q'. f q = Inl (NilFuncCall, q')))"
proof -
  let ?r = "[(''page[number]'', [''1'']), (''page[size]'', [''abc''])]"
  have h1: "snd (SortingFromRequest ?r exampleMapper :: string QueryOption \<times> error option) = None"
    by (simp add: SortingFromRequest_def Get_def)
  have h2: "snd (PaginationFromRequest defaultConfig ?r :: string QueryOption \<times> error option)
      = Some (NumError ''Atoi'' ''abc'' ErrSyntax)"
    by (simp add: PaginationFromRequest_def Get_def Atoi_def digitVal_def)
  have h3: "snd (FilterFromRequest rev ?r exampleMapper identitySanitizer) = None"
    by (simp add: FilterFromRequest_def HasPrefix_def HasSuffix_def)
  from composer_loses_pagination_error [OF h1 h2 h3] h2 show ?thesis
    by simp
qed

text \<open>
  Claim C1 says that an error of the pagination parser ends the composition before the
  filtering parser runs and is returned alone. On the request
  \<^verbatim>\<open>page[number]=1&page[size]=abc&filter[bad]=x\<close> sorting succeeds and pagination fails with the
  parse error of \<^verbatim>\<open>abc\<close>, but the composer goes on to the filtering parser and returns the
  filter error instead of the pagination error.
\<close>

theorem composer_pagination_error_not_returned:
  "snd (SortingFromRequest
          [(''page[number]'', [''1'']), (''page[size]'', [''abc'']), (''filter[bad]'', [''x''])]
          exampleMapper :: string QueryOption \<times> error option) = None \<and>
   (PaginationFromRequest defaultConfig
          [(''page[number]'', [''1'']), (''page[size]'', [''abc'']), (''filter[bad]'', [''x''])]
          :: string QueryOption \<times> error option) = (None, Some (NumError ''Atoi'' ''abc'' ErrSyntax)) \<and>
   FilterPagingSortingFromRequest defaultConfig rev
          [(''page[number]'', [''1'']), (''page[size]'', [''abc'']), (''filter[bad]'', [''x''])]
          exampleMapper identitySanitizer =
     (None, Some (Errorf ''at least one filter parameter is not valid: %q'' [ArgStr ''bad'']))"
  by (simp add: FilterPagingSortingFromRequest_def SortingFromRequest_def
        PaginationFromRequest_def FilterFromRequest_def Get_def HasPrefix_def HasSuffix_def
        TrimPrefix_def TrimSuffix_def exampleMapper_simps getFilterKey_def
        Atoi_def digitVal_def)

end
